theory Spec2Isabelle
  imports Main
begin

section \<open>JavaScript values\<close>

text \<open>
  The settings handled by the tool are JSON documents (the files under
  \<^verbatim>\<open>org-settings/\<close>, the bodies of the platform's answers) and the values read
  out of them. A value is one of JavaScript's primitives or a composite. \<open>JUndefined\<close>
  is the value of a missing property (\<^verbatim>\<open>current[key]\<close> for an absent key) and of a
  property set from an absent field, as \<^verbatim>\<open>getMemberPrivileges\<close> does.

  Numbers are the values of \<^verbatim>\<open>JSON.parse\<close>, never NaN, so \<^verbatim>\<open>===\<close> on them is
  equality of the number; the model takes integers. An object is the list of its own
  enumerable properties in the order \<^verbatim>\<open>Object.entries\<close> yields them. Every object
  of the tool is a plain one, so it inherits the members of \<^verbatim>\<open>Object.prototype\<close>;
  \<open>JFunction\<close> is the value of an inherited method, named by its property.
\<close>

datatype jsval =
    JUndefined
  | JNull
  | JBool bool
  | JNum int
  | JStr string
  | JArr "jsval list"
  | JObj "(string \<times> jsval) list"
  | JFunction string

type_synonym js_object = "(string \<times> jsval) list"

definition digit_char :: "nat \<Rightarrow> char" where
  "digit_char d = char_of (48 + d)"

text \<open>\<^verbatim>\<open>String(n)\<close> for a non-negative integer: its decimal digits.\<close>

fun string_of_nat :: "nat \<Rightarrow> string" where
  "string_of_nat n =
     (if n < 10 then [digit_char n]
      else string_of_nat (n div 10) @ [digit_char (n mod 10)])"

declare string_of_nat.simps [simp del]

text \<open>
  The own enumerable properties of a value: the indices of an array, as decimal
  strings, and the entries of an object.
\<close>

fun own_props :: "jsval \<Rightarrow> js_object" where
  "own_props (JArr xs) = zip (map string_of_nat [0..<length xs]) xs"
| "own_props (JObj kvs) = kvs"
| "own_props _ = []"

text \<open>\<^verbatim>\<open>Object.keys(v)\<close>\<close>

definition object_keys :: "jsval \<Rightarrow> string list" where
  "object_keys v = map fst (own_props v)"

text \<open>
  The value of an own property, \<^verbatim>\<open>undefined\<close> when the object has no own property of
  that name; and \<^verbatim>\<open>v[k]\<close> for a key \<^verbatim>\<open>k\<close> of \<^verbatim>\<open>Object.keys(v)\<close>, as
  \<open>isEqual\<close> reads it.
\<close>

definition js_get :: "js_object \<Rightarrow> string \<Rightarrow> jsval" where
  "js_get obj k = (case map_of obj k of Some v \<Rightarrow> v | None \<Rightarrow> JUndefined)"

definition get_prop :: "jsval \<Rightarrow> string \<Rightarrow> jsval" where
  "get_prop v k = js_get (own_props v) k"

text \<open>\<^verbatim>\<open>Object.keys(obj).includes(k)\<close>: the object has an own property \<^verbatim>\<open>k\<close>.\<close>

definition has_key :: "string \<Rightarrow> js_object \<Rightarrow> bool" where
  "has_key k obj = (k \<in> set (map fst obj))"

text \<open>
  The members of \<^verbatim>\<open>Object.prototype\<close>, which every plain object inherits, and what
  reading one of them from a plain object gives: \<^verbatim>\<open>__proto__\<close> gives
  \<^verbatim>\<open>Object.prototype\<close> itself, an object without enumerable properties, and every
  other member is a method.
\<close>

definition object_prototype_keys :: "string list" where
  "object_prototype_keys =
     [''constructor'', ''__defineGetter__'', ''__defineSetter__'', ''hasOwnProperty'',
      ''__lookupGetter__'', ''__lookupSetter__'', ''isPrototypeOf'',
      ''propertyIsEnumerable'', ''toString'', ''valueOf'', ''__proto__'',
      ''toLocaleString'']"

definition inherited :: "string \<Rightarrow> jsval" where
  "inherited k =
     (if k = ''__proto__'' then JObj []
      else if k \<in> set object_prototype_keys then JFunction k
      else JUndefined)"

text \<open>
  \<^verbatim>\<open>obj[k]\<close> for a plain object and any key: the own property when there is one, the
  inherited member otherwise, \<^verbatim>\<open>undefined\<close> when there is neither.
\<close>

definition js_read :: "js_object \<Rightarrow> string \<Rightarrow> jsval" where
  "js_read obj k = (case map_of obj k of Some v \<Rightarrow> v | None \<Rightarrow> inherited k)"

text \<open>\<^verbatim>\<open>k in obj\<close> for a plain object: an own or an inherited property.\<close>

definition js_in :: "string \<Rightarrow> js_object \<Rightarrow> bool" where
  "js_in k obj = (k \<in> set (map fst obj) \<or> k \<in> set object_prototype_keys)"

text \<open>
  \<^verbatim>\<open>obj[k] = v\<close> for a value that is a string, as are the values the tool assigns:
  an existing property keeps its place, and an assignment to \<^verbatim>\<open>__proto__\<close> goes to
  the inherited setter, which ignores a string.
\<close>

fun own_set :: "js_object \<Rightarrow> string \<Rightarrow> jsval \<Rightarrow> js_object" where
  "own_set [] k v = [(k, v)]"
| "own_set ((k', v') # rest) k v =
     (if k' = k then (k, v) # rest else (k', v') # own_set rest k v)"

definition js_set :: "js_object \<Rightarrow> string \<Rightarrow> jsval \<Rightarrow> js_object" where
  "js_set obj k v = (if k = ''__proto__'' then obj else own_set obj k v)"

fun typeof :: "jsval \<Rightarrow> string" where
  "typeof JUndefined = ''undefined''"
| "typeof JNull = ''object''"
| "typeof (JBool _) = ''boolean''"
| "typeof (JNum _) = ''number''"
| "typeof (JStr _) = ''string''"
| "typeof (JArr _) = ''object''"
| "typeof (JObj _) = ''object''"
| "typeof (JFunction _) = ''function''"

text \<open>
  \<^verbatim>\<open>a === b\<close>. Primitives are compared by value, and two inherited methods are the
  same function when they are the same member. Two composites are strictly equal
  only when they are the same reference; the values compared by the tool come from
  different sources (the platform and a file), so they never are, and lemma
  \<open>isEqual_refl\<close> shows that the answer of \<open>isEqual\<close> would be the same if they were.
\<close>

fun strict_eq :: "jsval \<Rightarrow> jsval \<Rightarrow> bool" where
  "strict_eq JUndefined JUndefined = True"
| "strict_eq JNull JNull = True"
| "strict_eq (JBool x) (JBool y) = (x = y)"
| "strict_eq (JNum x) (JNum y) = (x = y)"
| "strict_eq (JStr x) (JStr y) = (x = y)"
| "strict_eq (JFunction x) (JFunction y) = (x = y)"
| "strict_eq _ _ = False"

text \<open>\<^verbatim>\<open>v == null\<close>\<close>

fun is_nullish :: "jsval \<Rightarrow> bool" where
  "is_nullish JUndefined = True"
| "is_nullish JNull = True"
| "is_nullish _ = False"


section \<open>The diff engine: \<^verbatim>\<open>src/utils/settings-diff.js\<close>\<close>

text \<open>
  \<^verbatim>\<open>SettingsDiff.isEqual(a, b)\<close>. The loop over \<^verbatim>\<open>aKeys\<close> returns false at the
  first key that \<^verbatim>\<open>b\<close> lacks or whose values differ, and true after the last key.
\<close>

function isEqual :: "jsval \<Rightarrow> jsval \<Rightarrow> bool" where
  "isEqual a b =
     (if strict_eq a b then True
      else if is_nullish a \<or> is_nullish b then False
      else if typeof a \<noteq> typeof b then False
      else if typeof a = ''object'' then
        (let aKeys = object_keys a; bKeys = object_keys b in
         if length aKeys \<noteq> length bKeys then False
         else list_all (\<lambda>k. k \<in> set bKeys \<and> isEqual (get_prop a k) (get_prop b k)) aKeys)
      else False)"
  by pat_completeness auto
termination
proof (relation "measure (\<lambda>(a, b). size a)")
  show "wf (measure (\<lambda>(a, b). size a))" by simp
next
  fix a b :: jsval and aKeys bKeys :: "string list" and k :: string
  assume keys: "aKeys = object_keys a" and mem: "k \<in> set aKeys"
  from keys mem have "\<exists>k'. (k', get_prop a k) \<in> set (own_props a)"
    unfolding object_keys_def get_prop_def js_get_def
    by (auto split: option.splits dest: map_of_SomeD simp: map_of_eq_None_iff)
  then obtain k' where own: "(k', get_prop a k) \<in> set (own_props a)" ..
  have "size (get_prop a k) < size a"
  proof (cases a)
    case (JArr xs)
    with own have "get_prop a k \<in> set xs" by (auto dest: set_zip_rightD)
    then have "size (get_prop a k) \<le> size_list size xs"
      by (simp add: size_list_estimation')
    with JArr show ?thesis by simp
  next
    case (JObj kvs)
    with own have "(k', get_prop a k) \<in> set kvs" by simp
    then have "size_prod (\<lambda>_. 0) size (k', get_prop a k)
        \<le> size_list (size_prod (\<lambda>_. 0) size) kvs"
      by (rule size_list_estimation') simp
    with JObj show ?thesis by simp
  qed (use own in simp_all)
  then show "((get_prop a k, get_prop b k), a, b) \<in> measure (\<lambda>(a, b). size a)"
    by simp
qed

declare isEqual.simps [simp del]

datatype change_type = Add | Update | Remove

record change =
  key :: string
  type :: change_type
  currentValue :: jsval
  newValue :: jsval

text \<open>
  \<^verbatim>\<open>SettingsDiff.compare(current, desired)\<close>: the first loop runs over the entries of
  \<^verbatim>\<open>desired\<close>, the second over the keys of \<^verbatim>\<open>current\<close>; both push onto
  \<^verbatim>\<open>changes\<close>.
\<close>

fun compare_desired :: "js_object \<Rightarrow> js_object \<Rightarrow> change list \<Rightarrow> change list" where
  "compare_desired current [] changes = changes"
| "compare_desired current ((k, desiredValue) # rest) changes =
     (let cv = js_read current k in
      compare_desired current rest
        (if \<not> isEqual cv desiredValue
         then changes @ [\<lparr>key = k,
                          type = (if strict_eq cv JUndefined then Add else Update),
                          currentValue = cv,
                          newValue = desiredValue\<rparr>]
         else changes))"

fun compare_current :: "js_object \<Rightarrow> js_object \<Rightarrow> string list \<Rightarrow> change list \<Rightarrow> change list" where
  "compare_current current desired [] changes = changes"
| "compare_current current desired (k # rest) changes =
     compare_current current desired rest
       (if \<not> js_in k desired
        then changes @ [\<lparr>key = k, type = Remove,
                         currentValue = js_read current k, newValue = JUndefined\<rparr>]
        else changes)"

definition compare :: "js_object \<Rightarrow> js_object \<Rightarrow> change list" where
  "compare current desired =
     compare_current current desired (map fst current)
       (compare_desired current desired [])"

text \<open>
  The kinds of value the specification distinguishes: the scalars, and the two
  composites, sequence and mapping. A function, which no settings document holds, is a
  kind of its own.
\<close>

datatype value_kind =
  KUndefined | KNull | KBoolean | KNumber | KString | KSequence | KMapping | KFunction

fun kind_of :: "jsval \<Rightarrow> value_kind" where
  "kind_of JUndefined = KUndefined"
| "kind_of JNull = KNull"
| "kind_of (JBool _) = KBoolean"
| "kind_of (JNum _) = KNumber"
| "kind_of (JStr _) = KString"
| "kind_of (JArr _) = KSequence"
| "kind_of (JObj _) = KMapping"
| "kind_of (JFunction _) = KFunction"

definition is_composite :: "jsval \<Rightarrow> bool" where
  "is_composite v = (kind_of v = KSequence \<or> kind_of v = KMapping)"

text \<open>
  A map of settings: every key once, no value is the missing-value marker, and no key
  is the name of a member of \<^verbatim>\<open>Object.prototype\<close>.
\<close>

definition json_map :: "js_object \<Rightarrow> bool" where
  "json_map obj =
     (distinct (map fst obj) \<and> JUndefined \<notin> snd ` set obj
      \<and> list_all (\<lambda>k. k \<notin> set object_prototype_keys) (map fst obj))"

text \<open>
  The changes one entry of \<^verbatim>\<open>desired\<close> and one key of \<^verbatim>\<open>current\<close> contribute
  to the result of \<open>compare\<close>.
\<close>

definition desired_change :: "js_object \<Rightarrow> string \<Rightarrow> jsval \<Rightarrow> change list" where
  "desired_change current k dv =
     (if isEqual (js_read current k) dv then []
      else [\<lparr>key = k, type = (if js_read current k = JUndefined then Add else Update),
             currentValue = js_read current k, newValue = dv\<rparr>])"

definition removed_change :: "js_object \<Rightarrow> js_object \<Rightarrow> string \<Rightarrow> change list" where
  "removed_change current desired k =
     (if js_in k desired then []
      else [\<lparr>key = k, type = Remove, currentValue = js_read current k, newValue = JUndefined\<rparr>])"


section \<open>Strings\<close>

text \<open>
  A string is the list of its characters. The characters of the model are those with a
  code below 256; among them JavaScript's white space (what \<^verbatim>\<open>trim\<close> strips and
  \<^verbatim>\<open>\s\<close> matches) is tab, line feed, vertical tab, form feed, carriage return,
  space and the no-break space.
\<close>

definition is_whitespace :: "char \<Rightarrow> bool" where
  "is_whitespace c = (of_char c \<in> {9, 10, 11, 12, 13, 32, 160 :: nat})"

text \<open>\<^verbatim>\<open>s.trim()\<close>\<close>

definition trim :: "string \<Rightarrow> string" where
  "trim s = rev (dropWhile is_whitespace (rev (dropWhile is_whitespace s)))"

definition lower_char :: "char \<Rightarrow> char" where
  "lower_char c =
     (let n = of_char c :: nat in
      if (65 \<le> n \<and> n \<le> 90) \<or> (192 \<le> n \<and> n \<le> 222 \<and> n \<noteq> 215)
      then char_of (n + 32) else c)"

text \<open>\<^verbatim>\<open>s.toLowerCase()\<close>\<close>

definition toLowerCase :: "string \<Rightarrow> string" where
  "toLowerCase s = map lower_char s"

section \<open>The prompt: \<^verbatim>\<open>src/utils/prompt.js\<close>\<close>

text \<open>
  \<^verbatim>\<open>PromptManager.confirm\<close> resolves with the value its callback computes from the
  line the user typed.
\<close>

definition confirm_answer :: "string \<Rightarrow> bool" where
  "confirm_answer answer =
     (let normalized = toLowerCase (trim answer)
      in normalized \<noteq> ''n'' \<and> normalized \<noteq> ''no'')"


section \<open>Backups\<close>

record utc_time =
  year :: nat
  month :: nat
  day :: nat
  hours :: nat
  minutes :: nat
  seconds :: nat
  milliseconds :: nat

text \<open>\<^verbatim>\<open>String(n).padStart(w, '0')\<close>\<close>

definition pad :: "nat \<Rightarrow> nat \<Rightarrow> string" where
  "pad w n = (let s = string_of_nat n in replicate (w - length s) CHR ''0'' @ s)"

text \<open>
  \<^verbatim>\<open>Date.prototype.toISOString\<close>, for a time given by its fields in UTC and a year
  of at most four digits: \<^verbatim>\<open>YYYY-MM-DDTHH:mm:ss.sssZ\<close>.
\<close>

definition toISOString :: "utc_time \<Rightarrow> string" where
  "toISOString d =
     pad 4 (year d) @ ''-'' @ pad 2 (month d) @ ''-'' @ pad 2 (day d) @ ''T''
     @ pad 2 (hours d) @ '':'' @ pad 2 (minutes d) @ '':'' @ pad 2 (seconds d)
     @ ''.'' @ pad 3 (milliseconds d) @ ''Z''"

text \<open>
  The three steps of \<^verbatim>\<open>createBackup\<close> on the timestamp:
  \<^verbatim>\<open>.replace(/[:.]/g, '-')\<close>, which replaces every colon and period,
  \<^verbatim>\<open>.replace('T', '_')\<close>, which replaces the first \<^verbatim>\<open>T\<close>, and
  \<^verbatim>\<open>.split('.')[0]\<close>, which keeps what stands before the first period.
\<close>

definition replace_colon_period :: "string \<Rightarrow> string" where
  "replace_colon_period s =
     map (\<lambda>c. if c = CHR '':'' \<or> c = CHR ''.'' then CHR ''-'' else c) s"

fun replace_first :: "char \<Rightarrow> char \<Rightarrow> string \<Rightarrow> string" where
  "replace_first a b [] = []"
| "replace_first a b (c # cs) = (if c = a then b # cs else c # replace_first a b cs)"

definition split_head :: "char \<Rightarrow> string \<Rightarrow> string" where
  "split_head sep s = takeWhile (\<lambda>c. c \<noteq> sep) s"

definition backup_timestamp :: "utc_time \<Rightarrow> string" where
  "backup_timestamp now =
     split_head CHR ''.''
       (replace_first CHR ''T'' CHR ''_'' (replace_colon_period (toISOString now)))"

definition backup_filename :: "utc_time \<Rightarrow> string" where
  "backup_filename now = ''backup-'' @ backup_timestamp now @ ''.json''"

section \<open>The platform and the terminal\<close>

text \<open>
  An error thrown by the platform's client: its HTTP status, when it has one, and its
  message.
\<close>

datatype api_error = ApiError (status: "nat option") (message: string)

record named =
  name :: string

record member =
  username :: string
  role :: "string option"

record team_config = named +
  description :: "string option"
  privacy :: "string option"
  notification_setting :: "string option"
  members :: "member list option"

text \<open>A team as the platform lists it: what a declaration has, and its slug.\<close>

record remote_team = team_config +
  slug :: string

record bypass_actor =
  actor_type :: string
  team :: "string option"
  actor_id :: "nat option"
  bypass_mode :: "string option"

record ruleset_config = named +
  bypass_actors :: "bypass_actor list option"
  other_fields :: js_object

text \<open>A ruleset as the platform lists it: what a declaration has, and its id.\<close>

record remote_ruleset = ruleset_config +
  ruleset_id :: nat

text \<open>
  The calls of the platform's client that the organisation service issues, with the
  arguments that tell them apart. A variable's value is carried as the value before it
  is turned into text, a secret's as the plain value before it is sealed.
\<close>

datatype api_call =
    GetOrgVariable string
  | UpdateOrgVariable string jsval
  | CreateOrgVariable string jsval
  | GetOrgPublicKey
  | CreateOrUpdateOrgSecret string jsval string
  | OrgsUpdate string jsval
  | TeamsGetByName string
  | CreateOrgRuleset ruleset_config
  | UpdateOrgRuleset nat ruleset_config
  | TeamsCreate string string string string
  | TeamsUpdateInOrg string string string string string
  | AddOrUpdateMembership string string string

text \<open>
  What is outside the program: the lines the user types, one per question, and the
  platform. The platform's answer to a call may depend on the call and on how many
  calls came before it: \<open>fails\<close> says whether the call throws, the other fields give the
  data of a call that succeeds.
\<close>

record env =
  answers :: "nat \<Rightarrow> string"
  fails :: "nat \<Rightarrow> api_call \<Rightarrow> api_error option"
  team_id :: "nat \<Rightarrow> string \<Rightarrow> nat"
  public_key_id :: "nat \<Rightarrow> string"
  created_slug :: "nat \<Rightarrow> string \<Rightarrow> string"

datatype prompt_shown = Question string | ChangeQuestion string jsval jsval

text \<open>
  The state of a run: the three lists of \<^verbatim>\<open>results\<close>, the calls issued to the
  platform so far and the questions put to the user so far.
\<close>

record run_state =
  successful :: "string list"
  failed :: "string list"
  skipped :: "string list"
  calls :: "api_call list"
  prompts :: "prompt_shown list"

definition api :: "env \<Rightarrow> api_call \<Rightarrow> run_state \<Rightarrow> api_error option \<times> run_state" where
  "api env c st = (fails env (length (calls st)) c, st\<lparr>calls := calls st @ [c]\<rparr>)"

definition dq :: string where
  "dq = [CHR 0x22]"

definition nl :: string where
  "nl = [CHR 0x0A]"

text \<open>
  \<^verbatim>\<open>PromptManager.confirm(question)\<close> and \<^verbatim>\<open>confirmChange\<close>, which prints the
  setting and its two values and asks \<^verbatim>\<open>Apply this change?\<close>.
\<close>

definition confirm :: "env \<Rightarrow> string \<Rightarrow> run_state \<Rightarrow> bool \<times> run_state" where
  "confirm env question st =
     (confirm_answer (answers env (length (prompts st))),
      st\<lparr>prompts := prompts st @ [Question question]\<rparr>)"

definition confirmChange :: "env \<Rightarrow> string \<Rightarrow> jsval \<Rightarrow> jsval \<Rightarrow> run_state \<Rightarrow> bool \<times> run_state" where
  "confirmChange env settingName cv nv st =
     (confirm_answer (answers env (length (prompts st))),
      st\<lparr>prompts := prompts st @ [ChangeQuestion settingName cv nv]\<rparr>)"

section \<open>The organisation service\<close>


definition setActionSecret ::
  "env \<Rightarrow> string \<Rightarrow> jsval \<Rightarrow> run_state \<Rightarrow> (string + unit) \<times> run_state" where
  "setActionSecret env nm v st =
     (let key_id = public_key_id env (length (calls st)) in
      case api env GetOrgPublicKey st of
        (Some e, st1) \<Rightarrow> (Inl (''Failed to set secret '' @ nm @ '': '' @ message e), st1)
      | (None, st1) \<Rightarrow>
          (case api env (CreateOrUpdateOrgSecret nm v key_id) st1 of
             (Some e, st2) \<Rightarrow> (Inl (''Failed to set secret '' @ nm @ '': '' @ message e), st2)
           | (None, st2) \<Rightarrow> (Inr (), st2)))"









text \<open>\<^verbatim>\<open>v || d\<close> for an optional string: the default for a missing or empty one.\<close>

definition or_default :: "string option \<Rightarrow> string \<Rightarrow> string" where
  "or_default v d = (case v of Some s \<Rightarrow> if s \<noteq> [] then s else d | None \<Rightarrow> d)"

definition createTeam :: "env \<Rightarrow> team_config \<Rightarrow> run_state \<Rightarrow> (string + string) \<times> run_state" where
  "createTeam env teamConfig st =
     (let created = created_slug env (length (calls st)) (name teamConfig) in
      case api env (TeamsCreate (name teamConfig)
                      (or_default (description teamConfig) '''')
                      (or_default (privacy teamConfig) ''closed'')
                      (or_default (notification_setting teamConfig) ''notifications_enabled'')) st of
        (Some e, st1) \<Rightarrow>
          (Inl (''Failed to create team '' @ dq @ name teamConfig @ dq @ '': '' @ message e), st1)
      | (None, st1) \<Rightarrow> (Inr created, st1))"

definition updateTeam ::
  "env \<Rightarrow> string \<Rightarrow> team_config \<Rightarrow> run_state \<Rightarrow> (string + unit) \<times> run_state" where
  "updateTeam env teamSlug teamConfig st =
     (case api env (TeamsUpdateInOrg teamSlug (name teamConfig)
                      (or_default (description teamConfig) '''')
                      (or_default (privacy teamConfig) ''closed'')
                      (or_default (notification_setting teamConfig) ''notifications_enabled'')) st of
        (Some e, st1) \<Rightarrow>
          (Inl (''Failed to update team '' @ dq @ teamSlug @ dq @ '': '' @ message e), st1)
      | (None, st1) \<Rightarrow> (Inr (), st1))"

definition addTeamMember ::
  "env \<Rightarrow> string \<Rightarrow> string \<Rightarrow> string option \<Rightarrow> run_state \<Rightarrow> (string + unit) \<times> run_state" where
  "addTeamMember env teamSlug user role_opt st =
     (let r = (case role_opt of None \<Rightarrow> ''member'' | Some x \<Rightarrow> x) in
      case api env (AddOrUpdateMembership teamSlug user r) st of
        (Some e, st1) \<Rightarrow>
          (Inl (''Failed to add member '' @ dq @ user @ dq @ '' to team '' @ dq @ teamSlug @ dq
                @ '': '' @ message e), st1)
      | (None, st1) \<Rightarrow> (Inr (), st1))"

section \<open>The \<^verbatim>\<open>configure-org\<close> command\<close>

text \<open>
  The settings of the organisation by category, as \<^verbatim>\<open>configure-org\<close> reads them
  from the platform and stores them in a backup.
\<close>

record org_settings =
  actionVariables :: js_object
  actionSecrets :: "string list"
  memberPrivileges :: js_object
  branchRulesets :: "remote_ruleset list"
  teams :: "remote_team list"



text \<open>The body of the loop over \<^verbatim>\<open>secretChanges\<close>.\<close>

definition configure_secret :: "env \<Rightarrow> change \<Rightarrow> run_state \<Rightarrow> run_state" where
  "configure_secret env c st =
     (if type c = Update \<and> isEqual (currentValue c) (newValue c) then st
      else
        (let displayValue = (if type c = Remove then ''***'' else ''*** (will be set)'');
             (confirmed, st1) =
               confirmChange env (''Secret: '' @ key c)
                 (JStr (if type c = Add then ''(not set)'' else ''***''))
                 (JStr displayValue) st
         in if confirmed then
              (if type c \<noteq> Remove then
                 (case setActionSecret env (key c) (newValue c) st1 of
                    (Inr _, st2) \<Rightarrow> st2\<lparr>successful := successful st2 @ [''Secret: '' @ key c]\<rparr>
                  | (Inl msg, st2) \<Rightarrow>
                      st2\<lparr>failed := failed st2 @ [''Secret: '' @ key c @ '' - '' @ msg]\<rparr>)
               else st1\<lparr>skipped := skipped st1
                          @ [''Secret: '' @ key c @ '' (removal not automated)'']\<rparr>)
            else st1\<lparr>skipped := skipped st1 @ [''Secret: '' @ key c]\<rparr>))"

text \<open>
  \<^verbatim>\<open>currentSecrets\<close>: every secret name of the platform with the value
  \<^verbatim>\<open>'***'\<close>.
\<close>

definition current_secrets :: "string list \<Rightarrow> js_object" where
  "current_secrets currentSecretNames =
     fold (\<lambda>n obj. js_set obj n (JStr ''***'')) currentSecretNames []"

definition configure_secrets :: "env \<Rightarrow> string list \<Rightarrow> js_object \<Rightarrow> run_state \<Rightarrow> run_state" where
  "configure_secrets env currentSecretNames desiredSecrets st =
     fold (configure_secret env)
       (compare (current_secrets currentSecretNames) desiredSecrets) st"






text \<open>
  \<^verbatim>\<open>s.replace(/\s+/g, '-')\<close>: every run of white space becomes one hyphen.
\<close>

function replace_ws_runs :: "string \<Rightarrow> string" where
  "replace_ws_runs [] = []"
| "replace_ws_runs (c # cs) =
     (if is_whitespace c then CHR ''-'' # replace_ws_runs (dropWhile is_whitespace cs)
      else c # replace_ws_runs cs)"
  by pat_completeness auto
termination
  by (relation "measure length") (auto simp: length_dropWhile_le less_Suc_eq_le)

text \<open>The slug a declared team is looked up by.\<close>

definition expected_slug :: "team_config \<Rightarrow> string" where
  "expected_slug desiredTeam = replace_ws_runs (toLowerCase (name desiredTeam))"

text \<open>
  The loop over the declared members of a team, the same after an update and after a
  creation.
\<close>

fun add_members :: "env \<Rightarrow> string \<Rightarrow> string \<Rightarrow> member list \<Rightarrow> run_state \<Rightarrow> run_state" where
  "add_members env teamSlug teamName [] st = st"
| "add_members env teamSlug teamName (m # rest) st =
     (case addTeamMember env teamSlug (username m) (role m) st of
        (Inr _, st1) \<Rightarrow> add_members env teamSlug teamName rest st1
      | (Inl msg, st1) \<Rightarrow>
          add_members env teamSlug teamName rest
            (st1\<lparr>failed := failed st1 @ [''Team '' @ teamName @ '' - Member '' @ username m]\<rparr>))"

definition process_members ::
  "env \<Rightarrow> string \<Rightarrow> team_config \<Rightarrow> run_state \<Rightarrow> run_state" where
  "process_members env teamSlug desiredTeam st =
     (case members desiredTeam of
        None \<Rightarrow> st
      | Some ms \<Rightarrow>
          if length ms > 0 then add_members env teamSlug (name desiredTeam) ms st else st)"

definition team_question :: "remote_team list \<Rightarrow> team_config \<Rightarrow> string" where
  "team_question currentTeams desiredTeam =
     (case find (\<lambda>t. slug t = expected_slug desiredTeam) currentTeams of
        Some existing \<Rightarrow> nl @ ''Team '' @ dq @ name desiredTeam @ dq @ '' exists. Update it?''
      | None \<Rightarrow> nl @ ''Create new team '' @ dq @ name desiredTeam @ dq @ ''?'')"

text \<open>The body of the loop over \<^verbatim>\<open>desiredTeams\<close>.\<close>

definition configure_team ::
  "env \<Rightarrow> remote_team list \<Rightarrow> team_config \<Rightarrow> run_state \<Rightarrow> run_state" where
  "configure_team env currentTeams desiredTeam st =
     (case find (\<lambda>t. slug t = expected_slug desiredTeam) currentTeams of
        Some existing \<Rightarrow>
          (let (confirmed, st1) =
                 confirm env (nl @ ''Team '' @ dq @ name desiredTeam @ dq
                              @ '' exists. Update it?'') st
           in if confirmed then
                (case updateTeam env (slug existing) desiredTeam st1 of
                   (Inr _, st2) \<Rightarrow>
                     (let st3 = process_members env (slug existing) desiredTeam st2
                      in st3\<lparr>successful := successful st3 @ [''Team: '' @ name desiredTeam]\<rparr>)
                 | (Inl msg, st2) \<Rightarrow>
                     st2\<lparr>failed := failed st2 @ [''Team: '' @ name desiredTeam @ '' - '' @ msg]\<rparr>)
              else st1\<lparr>skipped := skipped st1 @ [''Team: '' @ name desiredTeam]\<rparr>)
      | None \<Rightarrow>
          (let (confirmed, st1) =
                 confirm env (nl @ ''Create new team '' @ dq @ name desiredTeam @ dq @ ''?'') st
           in if confirmed then
                (case createTeam env desiredTeam st1 of
                   (Inr createdSlug, st2) \<Rightarrow>
                     (let st3 = process_members env createdSlug desiredTeam st2
                      in st3\<lparr>successful := successful st3 @ [''Team: '' @ name desiredTeam]\<rparr>)
                 | (Inl msg, st2) \<Rightarrow>
                     st2\<lparr>failed := failed st2 @ [''Team: '' @ name desiredTeam @ '' - '' @ msg]\<rparr>)
              else st1\<lparr>skipped := skipped st1 @ [''Team: '' @ name desiredTeam]\<rparr>))"

definition configure_teams ::
  "env \<Rightarrow> remote_team list \<Rightarrow> team_config list \<Rightarrow> run_state \<Rightarrow> run_state" where
  "configure_teams env currentTeams desiredTeams st =
     fold (configure_team env currentTeams) desiredTeams st"

section \<open>The \<^verbatim>\<open>restore-org\<close> command\<close>








definition initial_state :: run_state where
  "initial_state = \<lparr>successful = [], failed = [], skipped = [], calls = [], prompts = []\<rparr>"

section \<open>Writing a backup: \<^verbatim>\<open>BackupManager.createBackup\<close>\<close>

record backup_file =
  timestamp :: string
  settings :: org_settings

text \<open>
  The files of the backup directory by path. \<open>now\<close> is the time of the first
  \<^verbatim>\<open>new Date()\<close>, which names the file, \<open>now'\<close> that of the second, which is stored.
\<close>

definition createBackup ::
  "string \<Rightarrow> org_settings \<Rightarrow> utc_time \<Rightarrow> utc_time \<Rightarrow> (string \<rightharpoonup> backup_file)
    \<Rightarrow> string \<times> (string \<rightharpoonup> backup_file)" where
  "createBackup backupDir s now now' files =
     (let filename = backup_filename now;
          filepath = backupDir @ ''/'' @ filename;
          backup = \<lparr>timestamp = toISOString now', settings = s\<rparr>
      in (filepath, files(filepath \<mapsto> backup)))"

definition yes_env :: env where
  "yes_env = \<lparr>answers = (\<lambda>_. ''y''), fails = (\<lambda>_ _. None), team_id = (\<lambda>_ _. 1),
      public_key_id = (\<lambda>_. ''k''), created_slug = (\<lambda>_ n. n)\<rparr>"

text \<open>The answers that \<open>confirm_answer\<close> takes for a no, up to surrounding white space.\<close>

definition negative_words :: "string list" where
  "negative_words = [''n'', ''N'', ''no'', ''No'', ''nO'', ''NO'']"

text \<open>Reading a decimal string back, and the characters of one.\<close>

definition nat_of_string :: "string \<Rightarrow> nat" where
  "nat_of_string s = foldl (\<lambda>acc c. acc * 10 + (of_char c - 48)) 0 s"

definition is_digit :: "char \<Rightarrow> bool" where
  "is_digit c = (48 \<le> (of_char c :: nat) \<and> (of_char c :: nat) \<le> 57)"

text \<open>A capture at 10:30:45.123 UTC.\<close>

definition capture_0 :: utc_time where
  "capture_0 = \<lparr>year = 2024, month = 1, day = 15, hours = 10, minutes = 30,
                 seconds = 45, milliseconds = 123\<rparr>"

section \<open>Names for what the loops do\<close>

text \<open>The call that upserts one declared member, and the entry its failure leaves.\<close>

definition member_call :: "string \<Rightarrow> member \<Rightarrow> api_call" where
  "member_call teamSlug m =
     AddOrUpdateMembership teamSlug (username m)
       (case role m of None \<Rightarrow> ''member'' | Some x \<Rightarrow> x)"

definition member_failures ::
  "env \<Rightarrow> string \<Rightarrow> string \<Rightarrow> member list \<Rightarrow> nat \<Rightarrow> string list" where
  "member_failures env teamSlug teamName ms n =
     map (\<lambda>(m, i). ''Team '' @ teamName @ '' - Member '' @ username m)
       (filter (\<lambda>(m, i). fails env i (member_call teamSlug m) \<noteq> None)
          (zip ms [n..<n + length ms]))"

text \<open>
  The team-level call for a declared team, the slug its members are added under, and
  its declared members.
\<close>

definition team_call :: "remote_team list \<Rightarrow> team_config \<Rightarrow> api_call" where
  "team_call currentTeams desiredTeam =
     (case find (\<lambda>t. slug t = expected_slug desiredTeam) currentTeams of
        Some existing \<Rightarrow>
          TeamsUpdateInOrg (slug existing) (name desiredTeam)
            (or_default (description desiredTeam) '''')
            (or_default (privacy desiredTeam) ''closed'')
            (or_default (notification_setting desiredTeam) ''notifications_enabled'')
      | None \<Rightarrow>
          TeamsCreate (name desiredTeam)
            (or_default (description desiredTeam) '''')
            (or_default (privacy desiredTeam) ''closed'')
            (or_default (notification_setting desiredTeam) ''notifications_enabled''))"

definition members_slug :: "env \<Rightarrow> remote_team list \<Rightarrow> team_config \<Rightarrow> nat \<Rightarrow> string" where
  "members_slug env currentTeams desiredTeam n =
     (case find (\<lambda>t. slug t = expected_slug desiredTeam) currentTeams of
        Some existing \<Rightarrow> slug existing
      | None \<Rightarrow> created_slug env n (name desiredTeam))"

definition declared_members :: "team_config \<Rightarrow> member list" where
  "declared_members desiredTeam = (case members desiredTeam of None \<Rightarrow> [] | Some ms \<Rightarrow> ms)"



section \<open>Sample runs\<close>

text \<open>
  An environment where the user answers \<^verbatim>\<open>y\<close> to every question and every call
  succeeds, and variations of it.
\<close>

definition declining_env :: env where
  "declining_env = yes_env\<lparr>answers := (\<lambda>_. ''n'')\<rparr>"

definition old_secret_removal :: change where
  "old_secret_removal =
     \<lparr>key = ''OLD_TOKEN'', type = Remove, currentValue = JStr ''***'', newValue = JUndefined\<rparr>"

definition bob_fails_env :: env where
  "bob_fails_env =
     yes_env\<lparr>fails := (\<lambda>n c. case c of
        AddOrUpdateMembership s u r \<Rightarrow>
          if u = ''bob'' then Some (ApiError (Some 404) ''Not Found'') else None
      | _ \<Rightarrow> None)\<rparr>"

definition team_a :: team_config where
  "team_a = \<lparr>name = ''Team A'', description = None, privacy = None,
      notification_setting = None,
      members = Some [\<lparr>username = ''al'', role = None\<rparr>,
                      \<lparr>username = ''bob'', role = None\<rparr>,
                      \<lparr>username = ''cy'', role = Some ''maintainer''\<rparr>]\<rparr>"

definition team_b :: team_config where
  "team_b = \<lparr>name = ''Team B'', description = None, privacy = None,
      notification_setting = None,
      members = Some [\<lparr>username = ''dee'', role = None\<rparr>]\<rparr>"

definition remote_team_a :: remote_team where
  "remote_team_a = \<lparr>name = ''Team A'', description = None, privacy = Some ''closed'',
      notification_setting = None, members = None, slug = ''team-a''\<rparr>"








section \<open>Properties of the diff engine\<close>

subsection \<open>Deep equality\<close>

lemma isEqual_JNull_left: "isEqual JNull b = (b = JNull)"
  by (cases b) (simp_all add: isEqual.simps)

lemma isEqual_JNull_right: "isEqual a JNull = (a = JNull)"
  by (cases a) (simp_all add: isEqual.simps)

lemma isEqual_JUndefined_left: "isEqual JUndefined b = (b = JUndefined)"
  by (cases b) (simp_all add: isEqual.simps)

lemma isEqual_JUndefined_right: "isEqual a JUndefined = (a = JUndefined)"
  by (cases a) (simp_all add: isEqual.simps)

lemma isEqual_typeof: "typeof a \<noteq> typeof b \<Longrightarrow> \<not> isEqual a b"
  by (subst isEqual.simps) (cases a; cases b; simp)

text \<open>
  A value is deeply equal to itself, so the shortcut \<^verbatim>\<open>a === b\<close> on one and the
  same composite gives what the comparison of its properties gives.
\<close>

lemma strict_eq_refl_or_object:
  "\<not> strict_eq a a \<Longrightarrow> \<not> is_nullish a \<and> typeof a = ''object''"
  by (cases a) simp_all

lemma isEqual_refl_aux: "a = b \<longrightarrow> isEqual a b"
proof (induction a b rule: isEqual.induct)
  case (1 a b)
  show ?case
  proof
    assume ab: "a = b"
    show "isEqual a b"
    proof (cases "strict_eq a b")
      case True
      then show ?thesis by (subst isEqual.simps) simp
    next
      case False
      with ab have obj: "\<not> is_nullish a \<and> typeof a = ''object''"
        using strict_eq_refl_or_object by blast
      have all: "list_all (\<lambda>k. k \<in> set (object_keys b) \<and> isEqual (get_prop a k) (get_prop b k)) (object_keys a)"
        unfolding list_all_iff
      proof
        fix k assume k: "k \<in> set (object_keys a)"
        have "get_prop a k = get_prop b k \<longrightarrow> isEqual (get_prop a k) (get_prop b k)"
        proof (rule "1.IH" [of "object_keys a" "object_keys b" k])
          show "\<not> strict_eq a b" by (rule False)
          show "\<not> (is_nullish a \<or> is_nullish b)" using obj ab by blast
          show "\<not> typeof a \<noteq> typeof b" using ab by blast
          show "typeof a = ''object''" using obj by blast
          show "\<not> length (object_keys a) \<noteq> length (object_keys b)" using ab by blast
          show "k \<in> set (object_keys a)" by (rule k)
        qed (rule refl)+
        with ab k show "k \<in> set (object_keys b) \<and> isEqual (get_prop a k) (get_prop b k)"
          by blast
      qed
      have "isEqual a b = list_all (\<lambda>k. k \<in> set (object_keys b) \<and> isEqual (get_prop a k) (get_prop b k)) (object_keys a)"
        using False obj ab by (subst isEqual.simps) (simp add: Let_def)
      with all show ?thesis by blast
    qed
  qed
qed

lemma isEqual_refl: "isEqual a a"
  using isEqual_refl_aux by blast


text \<open>
  C7, as the code has it. \<^verbatim>\<open>null\<close> is deeply equal to \<^verbatim>\<open>null\<close> only and
  \<^verbatim>\<open>undefined\<close> to \<^verbatim>\<open>undefined\<close> only: the test \<^verbatim>\<open>a == null || b == null\<close>
  answers false as soon as the two are not strictly equal. So each of them is unequal
  to every other value, the other one of the two included.
\<close>

theorem isEqual_null_undefined:
  "isEqual JNull b = (b = JNull) \<and> isEqual JUndefined b = (b = JUndefined)
   \<and> isEqual a JNull = (a = JNull) \<and> isEqual a JUndefined = (a = JUndefined)"
  by (simp add: isEqual_JNull_left isEqual_JUndefined_left
      isEqual_JNull_right isEqual_JUndefined_right)

text \<open>
  C7 as stated says that \<^verbatim>\<open>null\<close> and the missing-value marker are equal to each
  other. They are not, in either order.
\<close>

theorem isEqual_null_undefined_counterexample:
  "\<not> isEqual JNull JUndefined \<and> \<not> isEqual JUndefined JNull"
  by (simp add: isEqual.simps)

text \<open>
  C8, as the code has it. Two values of differing kinds are unequal whenever at least
  one of them is a scalar. A sequence and a mapping both have \<^verbatim>\<open>typeof\<close>
  \<^verbatim>\<open>'object'\<close> and are compared by their keys.
\<close>

theorem isEqual_kinds:
  "kind_of a \<noteq> kind_of b \<and> \<not> (is_composite a \<and> is_composite b) \<longrightarrow> \<not> isEqual a b"
  by (subst isEqual.simps) (cases a; cases b; simp add: is_composite_def)

theorem isEqual_kinds_witness:
  "kind_of (JStr ''1'') \<noteq> kind_of (JArr [JNum 1])
   \<and> \<not> (is_composite (JStr ''1'') \<and> is_composite (JArr [JNum 1]))
   \<and> \<not> isEqual (JStr ''1'') (JArr [JNum 1])"
  using isEqual_kinds [of "JStr ''1''" "JArr [JNum 1]"]
  by (simp add: is_composite_def)

text \<open>
  C8 as stated fails for a sequence against a mapping: the empty array and the empty
  object are of differing kinds and deeply equal, and so are an array and the object
  that has the array's indices as keys.
\<close>

theorem isEqual_kinds_counterexample:
  "kind_of (JArr []) \<noteq> kind_of (JObj []) \<and> isEqual (JArr []) (JObj [])
   \<and> kind_of (JArr [JNum 1, JNum 2]) \<noteq> kind_of (JObj [(''0'', JNum 1), (''1'', JNum 2)])
   \<and> isEqual (JArr [JNum 1, JNum 2]) (JObj [(''0'', JNum 1), (''1'', JNum 2)])"
  by code_simp

subsection \<open>The change list\<close>

lemma strict_eq_undefined: "strict_eq v JUndefined = (v = JUndefined)"
  by (cases v) simp_all

lemma compare_desired_eq:
  "compare_desired current ds changes =
     changes @ concat (map (\<lambda>(k, dv). desired_change current k dv) ds)"
  by (induction ds arbitrary: changes)
     (auto simp: desired_change_def Let_def strict_eq_undefined)

lemma compare_current_eq:
  "compare_current current desired ks changes =
     changes @ concat (map (removed_change current desired) ks)"
  by (induction ks arbitrary: changes) (auto simp: removed_change_def)

lemma compare_eq:
  "compare current desired =
     concat (map (\<lambda>(k, dv). desired_change current k dv) desired)
     @ concat (map (removed_change current desired) (map fst current))"
  by (simp add: compare_def compare_desired_eq compare_current_eq)

lemma filter_desired_changes:
  "distinct (map fst ds) \<Longrightarrow>
   filter (\<lambda>c. key c = k) (concat (map (\<lambda>(k, dv). desired_change current k dv) ds)) =
     (case map_of ds k of None \<Rightarrow> [] | Some dv \<Rightarrow> desired_change current k dv)"
proof (induction ds)
  case Nil
  then show ?case by simp
next
  case (Cons p ds)
  obtain k' dv' where p: "p = (k', dv')" by (cases p)
  show ?case
  proof (cases "k' = k")
    case True
    with Cons.prems p have "map_of ds k = None"
      by (simp add: map_of_eq_None_iff)
    with Cons p True show ?thesis
      by (simp add: desired_change_def)
  next
    case False
    with Cons p show ?thesis
      by (simp add: desired_change_def)
  qed
qed

lemma filter_removed_changes:
  "distinct ks \<Longrightarrow>
   filter (\<lambda>c. key c = k) (concat (map (removed_change current desired) ks)) =
     (if k \<in> set ks then removed_change current desired k else [])"
proof (induction ks)
  case Nil
  then show ?case by simp
next
  case (Cons k' ks)
  then show ?case
    by (cases "k' = k") (auto simp: removed_change_def)
qed

lemma map_of_has_key: "map_of obj k = None \<longleftrightarrow> \<not> has_key k obj"
  by (simp add: has_key_def map_of_eq_None_iff)

lemma js_read_own: "has_key k obj \<Longrightarrow> js_read obj k = js_get obj k"
  using map_of_has_key [of obj k]
  by (cases "map_of obj k") (simp_all add: js_read_def js_get_def)

lemma js_read_not_own: "\<not> has_key k obj \<Longrightarrow> js_read obj k = inherited k"
  using map_of_has_key [of obj k] by (simp add: js_read_def)

lemma js_in_own: "has_key k obj \<Longrightarrow> js_in k obj"
  by (simp add: js_in_def has_key_def)

text \<open>
  The changes \<open>compare\<close> emits for one key, for maps with every key once: what the
  entry of desired gives when desired has the key, and otherwise a remove when current
  has the key and desired does not inherit it.
\<close>

lemma compare_per_key:
  assumes "distinct (map fst current)" and "distinct (map fst desired)"
  shows "filter (\<lambda>c. key c = k) (compare current desired) =
     (if has_key k desired then desired_change current k (js_get desired k)
      else if has_key k current \<and> k \<notin> set object_prototype_keys
        then [\<lparr>key = k, type = Remove, currentValue = js_get current k, newValue = JUndefined\<rparr>]
        else [])"
proof -
  have "filter (\<lambda>c. key c = k) (compare current desired) =
      (case map_of desired k of None \<Rightarrow> [] | Some dv \<Rightarrow> desired_change current k dv)
      @ (if k \<in> set (map fst current) then removed_change current desired k else [])"
    unfolding compare_eq filter_append
      filter_desired_changes [OF assms(2)] filter_removed_changes [OF assms(1)] ..
  also have "\<dots> =
     (if has_key k desired then desired_change current k (js_get desired k)
      else if has_key k current \<and> k \<notin> set object_prototype_keys
        then [\<lparr>key = k, type = Remove, currentValue = js_get current k, newValue = JUndefined\<rparr>]
        else [])"
  proof (cases "map_of desired k")
    case None
    then have nk: "\<not> has_key k desired" by (simp add: map_of_has_key)
    show ?thesis
    proof (cases "has_key k current")
      case True
      with None nk show ?thesis
        by (simp add: removed_change_def js_in_def js_read_own) (simp add: has_key_def)
    next
      case False
      with None nk show ?thesis by (simp add: has_key_def)
    qed
  next
    case (Some dv)
    then have "has_key k desired"
      using map_of_has_key [of desired k] by simp
    with Some show ?thesis
      by (simp add: removed_change_def js_get_def js_in_own)
  qed
  finally show ?thesis .
qed

lemma inherited_undefined: "k \<notin> set object_prototype_keys \<Longrightarrow> inherited k = JUndefined"
  by (auto simp: inherited_def object_prototype_keys_def)

lemma json_map_own_key:
  assumes "json_map obj" and "has_key k obj"
  shows "k \<notin> set object_prototype_keys"
  using assms by (auto simp: json_map_def has_key_def list_all_iff)

lemma js_get_present:
  assumes "json_map obj" and "has_key k obj"
  shows "js_get obj k \<noteq> JUndefined"
proof -
  from assms(2) obtain v where v: "map_of obj k = Some v"
    using map_of_has_key [of obj k] by (cases "map_of obj k") auto
  then have "(k, v) \<in> set obj" by (rule map_of_SomeD)
  then have "v \<in> snd ` set obj" by force
  with assms(1) have "v \<noteq> JUndefined" unfolding json_map_def by blast
  with v show ?thesis by (simp add: js_get_def)
qed

lemma isEqual_inherited: "isEqual (inherited k) (inherited k)"
  by (rule isEqual_refl)

lemma compare_per_key_json:
  assumes "json_map current" and "json_map desired"
  shows "filter (\<lambda>c. key c = k) (compare current desired) =
     (if isEqual (js_read current k) (js_read desired k) then []
      else [\<lparr>key = k,
             type = (if \<not> has_key k current then Add
                     else if \<not> has_key k desired then Remove else Update),
             currentValue = js_read current k, newValue = js_read desired k\<rparr>])"
proof -
  from assms have d: "distinct (map fst current)" "distinct (map fst desired)"
    by (simp_all add: json_map_def)
  consider (des) "has_key k desired" | (cur) "\<not> has_key k desired" "has_key k current"
    | (none) "\<not> has_key k desired" "\<not> has_key k current"
    by blast
  then show ?thesis
  proof cases
    case des
    then have np: "k \<notin> set object_prototype_keys"
      using assms(2) by (simp add: json_map_own_key)
    show ?thesis
    proof (cases "has_key k current")
      case True
      with des assms show ?thesis
        by (simp add: compare_per_key [OF d] desired_change_def js_read_own js_get_present)
    next
      case False
      with des np show ?thesis
        by (simp add: compare_per_key [OF d] desired_change_def js_read_own
            js_read_not_own inherited_undefined)
    qed
  next
    case cur
    then have np: "k \<notin> set object_prototype_keys"
      using assms(1) by (simp add: json_map_own_key)
    with cur assms show ?thesis
      by (simp add: compare_per_key [OF d] js_read_own js_read_not_own inherited_undefined
          js_get_present isEqual_JUndefined_right)
  next
    case none
    then show ?thesis
      by (simp add: compare_per_key [OF d] js_read_not_own isEqual_inherited)
  qed
qed

text \<open>
  C1, as the code has it: for maps with every key once, no value \<^verbatim>\<open>undefined\<close> and
  no key that names a member of \<^verbatim>\<open>Object.prototype\<close>. For every key, \<open>compare\<close>
  emits one change when the values \<^verbatim>\<open>current[k]\<close> and \<^verbatim>\<open>desired[k]\<close> are not
  deeply equal and none when they are; the change is an add when the key is absent in
  current, a remove when it is absent in desired, an update otherwise, and carries the
  two values; and every change is for a key of one of the two maps.
\<close>

theorem compare_changes:
  assumes "json_map current" and "json_map desired"
  shows "length (filter (\<lambda>c. key c = k) (compare current desired)) =
           (if isEqual (js_read current k) (js_read desired k) then 0 else 1)
       \<and> (\<forall>c \<in> set (compare current desired). key c = k \<longrightarrow>
            type c = (if \<not> has_key k current then Add
                      else if \<not> has_key k desired then Remove else Update)
            \<and> currentValue c = js_read current k \<and> newValue c = js_read desired k)
       \<and> (\<forall>c \<in> set (compare current desired).
            has_key (key c) current \<or> has_key (key c) desired)"
proof (intro conjI ballI impI)
  show "length (filter (\<lambda>c. key c = k) (compare current desired)) =
           (if isEqual (js_read current k) (js_read desired k) then 0 else 1)"
    by (simp add: compare_per_key_json [OF assms])
next
  fix c assume c: "c \<in> set (compare current desired)" and k: "key c = k"
  then have "c \<in> set (filter (\<lambda>c. key c = k) (compare current desired))" by simp
  then have "c = \<lparr>key = k,
             type = (if \<not> has_key k current then Add
                     else if \<not> has_key k desired then Remove else Update),
             currentValue = js_read current k, newValue = js_read desired k\<rparr>"
    unfolding compare_per_key_json [OF assms] by (simp split: if_splits)
  then show "type c = (if \<not> has_key k current then Add
                      else if \<not> has_key k desired then Remove else Update)"
    and "currentValue c = js_read current k" and "newValue c = js_read desired k"
    by simp_all
next
  fix c assume c: "c \<in> set (compare current desired)"
  then have "c \<in> set (filter (\<lambda>c'. key c' = key c) (compare current desired))" by simp
  then have ne: "filter (\<lambda>c'. key c' = key c) (compare current desired) \<noteq> []" by force
  from assms have d: "distinct (map fst current)" "distinct (map fst desired)"
    by (simp_all add: json_map_def)
  from ne show "has_key (key c) current \<or> has_key (key c) desired"
    unfolding compare_per_key [OF d] by (simp split: if_splits)
qed

theorem compare_changes_witness:
  "json_map [(''A'', JNum 5)] \<and> json_map [(''A'', JNum 1), (''B'', JNum 2)]
   \<and> length (filter (\<lambda>c. key c = ''B'')
        (compare [(''A'', JNum 5)] [(''A'', JNum 1), (''B'', JNum 2)])) = 1"
proof -
  have h1: "json_map [(''A'', JNum 5)]"
    and h2: "json_map [(''A'', JNum 1), (''B'', JNum 2)]"
    by (simp_all add: json_map_def object_prototype_keys_def)
  have "\<not> isEqual (js_read [(''A'', JNum 5)] ''B'')
          (js_read [(''A'', JNum 1), (''B'', JNum 2)] ''B'')"
    by code_simp
  with compare_changes [OF h1 h2, of "''B''"] h1 h2 show ?thesis
    by simp
qed

text \<open>
  C1 as stated is about every pair of maps. A property whose value is
  \<^verbatim>\<open>undefined\<close>, which \<^verbatim>\<open>getMemberPrivileges\<close> builds for a field the platform
  does not send, breaks it: against a desired map without the key, a remove is emitted
  although the two values are deeply equal, and against a desired map with the key the
  change is an add although the key is present in current. So does a key that names a
  member of \<^verbatim>\<open>Object.prototype\<close>: a desired \<^verbatim>\<open>constructor\<close> that current lacks is
  an update from the inherited method, not an add, and a current \<^verbatim>\<open>toString\<close> that
  desired lacks gives no change at all, although the two values differ.
\<close>

theorem compare_changes_counterexample:
  "compare [(''members_can_create_teams'', JUndefined)] [] =
     [\<lparr>key = ''members_can_create_teams'', type = Remove,
       currentValue = JUndefined, newValue = JUndefined\<rparr>]
   \<and> isEqual JUndefined JUndefined
   \<and> compare [(''members_can_create_teams'', JUndefined)]
         [(''members_can_create_teams'', JBool True)] =
     [\<lparr>key = ''members_can_create_teams'', type = Add,
       currentValue = JUndefined, newValue = JBool True\<rparr>]
   \<and> has_key ''members_can_create_teams'' [(''members_can_create_teams'', JUndefined)]
   \<and> compare [] [(''constructor'', JStr ''x'')] =
     [\<lparr>key = ''constructor'', type = Update,
       currentValue = JFunction ''constructor'', newValue = JStr ''x''\<rparr>]
   \<and> \<not> has_key ''constructor'' []
   \<and> compare [(''toString'', JNum 1)] [] = []
   \<and> \<not> isEqual (JNum 1) (js_read [] ''toString'')"
  by code_simp

section \<open>Properties of the prompt\<close>

lemma lower_char_cases:
  "lower_char c = c \<or> (of_char (lower_char c) :: nat) = of_char c + 32"
proof -
  have "(of_char c :: nat) < 256" by simp
  then show ?thesis
    by (auto simp: lower_char_def Let_def)
qed

lemma lower_char_n: "lower_char c = CHR ''n'' \<longleftrightarrow> c = CHR ''n'' \<or> c = CHR ''N''"
proof
  assume l: "lower_char c = CHR ''n''"
  from lower_char_cases [of c] show "c = CHR ''n'' \<or> c = CHR ''N''"
  proof
    assume "lower_char c = c"
    with l show ?thesis by simp
  next
    assume "(of_char (lower_char c) :: nat) = of_char c + 32"
    with l have "(of_char c :: nat) = 78" by simp
    then have "(of_char c :: nat) = of_char CHR ''N''" by simp
    then have "c = CHR ''N''" by (rule of_char_eqI)
    then show ?thesis by blast
  qed
next
  assume "c = CHR ''n'' \<or> c = CHR ''N''"
  then show "lower_char c = CHR ''n''"
    by (auto simp: lower_char_def) code_simp
qed

lemma lower_char_o: "lower_char c = CHR ''o'' \<longleftrightarrow> c = CHR ''o'' \<or> c = CHR ''O''"
proof
  assume l: "lower_char c = CHR ''o''"
  from lower_char_cases [of c] show "c = CHR ''o'' \<or> c = CHR ''O''"
  proof
    assume "lower_char c = c"
    with l show ?thesis by simp
  next
    assume "(of_char (lower_char c) :: nat) = of_char c + 32"
    with l have "(of_char c :: nat) = 79" by simp
    then have "(of_char c :: nat) = of_char CHR ''O''" by simp
    then have "c = CHR ''O''" by (rule of_char_eqI)
    then show ?thesis by blast
  qed
next
  assume "c = CHR ''o'' \<or> c = CHR ''O''"
  then show "lower_char c = CHR ''o''"
    by (auto simp: lower_char_def) code_simp
qed

lemma toLowerCase_n: "toLowerCase s = ''n'' \<longleftrightarrow> s = ''n'' \<or> s = ''N''"
  by (cases s) (auto simp: toLowerCase_def lower_char_n)

lemma toLowerCase_no:
  "toLowerCase s = ''no'' \<longleftrightarrow> s = ''no'' \<or> s = ''No'' \<or> s = ''nO'' \<or> s = ''NO''"
proof (cases s)
  case Nil
  then show ?thesis by (simp add: toLowerCase_def)
next
  case (Cons c cs)
  then show ?thesis
    by (cases cs) (auto simp: toLowerCase_def lower_char_n lower_char_o)
qed

lemma trim_decompose:
  "\<exists>ws1 ws2. s = ws1 @ trim s @ ws2 \<and> list_all is_whitespace ws1 \<and> list_all is_whitespace ws2"
proof -
  let ?u = "dropWhile is_whitespace s"
  have "rev ?u = takeWhile is_whitespace (rev ?u) @ dropWhile is_whitespace (rev ?u)"
    by simp
  then have "?u = trim s @ rev (takeWhile is_whitespace (rev ?u))"
    unfolding trim_def by (metis rev_append rev_rev_ident)
  moreover have "s = takeWhile is_whitespace s @ ?u" by simp
  ultimately have "s = takeWhile is_whitespace s @ trim s @ rev (takeWhile is_whitespace (rev ?u))"
    by simp
  moreover have "list_all is_whitespace (takeWhile is_whitespace s)"
    by (simp add: list_all_iff) (meson set_takeWhileD)
  moreover have "list_all is_whitespace (rev (takeWhile is_whitespace (rev ?u)))"
    by (simp add: list_all_iff) (meson set_takeWhileD)
  ultimately show ?thesis by blast
qed

lemma trim_core:
  assumes "list_all is_whitespace ws1" and "list_all is_whitespace ws2"
    and "core \<noteq> []" and "\<not> is_whitespace (hd core)" and "\<not> is_whitespace (last core)"
  shows "trim (ws1 @ core @ ws2) = core"
proof -
  from assms(3) obtain c cs where core: "core = c # cs" by (cases core) auto
  with assms(4) have c: "\<not> is_whitespace c" by simp
  from assms(1) have "dropWhile is_whitespace (ws1 @ core @ ws2) = core @ ws2"
    using core c by (simp add: list_all_iff dropWhile_append)
  moreover from assms(3) obtain d ds where rcore: "rev core = d # ds" by (cases "rev core") auto
  with assms(3,5) have d: "\<not> is_whitespace d"
    by (metis hd_rev list.sel(1))
  from assms(2) have "dropWhile is_whitespace (rev ws2 @ rev core) = rev core"
    using rcore d by (simp add: list_all_iff dropWhile_append)
  ultimately show ?thesis
    by (simp add: trim_def)
qed

lemma negative_words_shape:
  "w \<in> set negative_words \<Longrightarrow> w \<noteq> [] \<and> \<not> is_whitespace (hd w) \<and> \<not> is_whitespace (last w)"
  by (auto simp: negative_words_def is_whitespace_def)

lemma confirm_answer_declines:
  "(\<not> confirm_answer answer) =
     (\<exists>ws1 w ws2. answer = ws1 @ w @ ws2 \<and> w \<in> set negative_words
        \<and> list_all is_whitespace ws1 \<and> list_all is_whitespace ws2)"
proof
  assume "\<not> confirm_answer answer"
  then have "trim answer \<in> set negative_words"
    by (auto simp: confirm_answer_def Let_def toLowerCase_n toLowerCase_no negative_words_def)
  with trim_decompose [of answer] show "\<exists>ws1 w ws2. answer = ws1 @ w @ ws2 \<and> w \<in> set negative_words
        \<and> list_all is_whitespace ws1 \<and> list_all is_whitespace ws2"
    by blast
next
  assume "\<exists>ws1 w ws2. answer = ws1 @ w @ ws2 \<and> w \<in> set negative_words
        \<and> list_all is_whitespace ws1 \<and> list_all is_whitespace ws2"
  then obtain ws1 w ws2 where a: "answer = ws1 @ w @ ws2" and w: "w \<in> set negative_words"
    and ws: "list_all is_whitespace ws1" "list_all is_whitespace ws2" by blast
  from negative_words_shape [OF w] ws have "trim (ws1 @ w @ ws2) = w"
    by (intro trim_core) simp_all
  with a w show "\<not> confirm_answer answer"
    by (auto simp: confirm_answer_def Let_def toLowerCase_n toLowerCase_no negative_words_def)
qed

text \<open>
  C10. \<^verbatim>\<open>PromptManager.confirm\<close> resolves to false exactly when the answer, trimmed
  and in lower case, is \<^verbatim>\<open>n\<close> or \<^verbatim>\<open>no\<close>; every other answer resolves to true, the
  empty one and unrecognised text included. In terms of the line as typed: it is a no
  exactly when it is \<^verbatim>\<open>n\<close> or \<^verbatim>\<open>no\<close>, in either case of each letter, between
  white space.
\<close>

theorem confirm_false_iff:
  "(fst (confirm env question st) = False) =
     (toLowerCase (trim (answers env (length (prompts st)))) = ''n''
      \<or> toLowerCase (trim (answers env (length (prompts st)))) = ''no'')
   \<and> confirm_answer answer =
       (toLowerCase (trim answer) \<noteq> ''n'' \<and> toLowerCase (trim answer) \<noteq> ''no'')
   \<and> (\<not> confirm_answer answer) =
       (\<exists>ws1 w ws2. answer = ws1 @ w @ ws2 \<and> w \<in> set negative_words
          \<and> list_all is_whitespace ws1 \<and> list_all is_whitespace ws2)
   \<and> confirm_answer [] \<and> confirm_answer ''yes'' \<and> confirm_answer ''nope''
   \<and> confirm_answer ''maybe not''"
proof -
  have "confirm_answer [] \<and> confirm_answer ''yes'' \<and> confirm_answer ''nope''
      \<and> confirm_answer ''maybe not''"
    by code_simp
  moreover have "(fst (confirm env question st) = False) =
     (toLowerCase (trim (answers env (length (prompts st)))) = ''n''
      \<or> toLowerCase (trim (answers env (length (prompts st)))) = ''no'')"
    by (auto simp: confirm_def confirm_answer_def Let_def)
  moreover have "confirm_answer answer =
       (toLowerCase (trim answer) \<noteq> ''n'' \<and> toLowerCase (trim answer) \<noteq> ''no'')"
    by (simp add: confirm_answer_def Let_def)
  ultimately show ?thesis
    using confirm_answer_declines [of answer] by blast
qed

theorem confirm_false_iff_witness:
  "fst (confirm (yes_env\<lparr>answers := (\<lambda>_. ''  No '')\<rparr>) ''Apply this change?'' initial_state) = False"
proof -
  have "toLowerCase (trim ''  No '') = ''no''" by code_simp
  with confirm_false_iff [of "yes_env\<lparr>answers := (\<lambda>_. ''  No '')\<rparr>" "''Apply this change?''"
      initial_state "[]"]
  show ?thesis by (simp add: yes_env_def)
qed


section \<open>Properties of the backup's name\<close>

lemma of_char_digit_char: "d < 10 \<Longrightarrow> (of_char (digit_char d) :: nat) = 48 + d"
  by (simp add: digit_char_def)

lemma nat_of_string_snoc:
  "nat_of_string (s @ [c]) = nat_of_string s * 10 + (of_char c - 48)"
  by (simp add: nat_of_string_def)

lemma nat_of_string_of_nat: "nat_of_string (string_of_nat n) = n"
proof (induction n rule: string_of_nat.induct)
  case (1 n)
  show ?case
  proof (cases "n < 10")
    case True
    then show ?thesis
      by (subst string_of_nat.simps) (simp add: nat_of_string_def of_char_digit_char)
  next
    case False
    have "n mod 10 < 10" by simp
    with False 1 show ?thesis
      by (subst string_of_nat.simps) (simp add: nat_of_string_snoc of_char_digit_char)
  qed
qed

lemma nat_of_string_zeros:
  "nat_of_string (replicate k CHR ''0'' @ s) = nat_of_string s"
  by (induction k) (simp_all add: nat_of_string_def)

lemma nat_of_string_pad: "nat_of_string (pad w n) = n"
  by (simp add: pad_def Let_def nat_of_string_zeros nat_of_string_of_nat)

lemma is_digit_digit_char: "d < 10 \<Longrightarrow> is_digit (digit_char d)"
  by (simp add: is_digit_def of_char_digit_char)

lemma string_of_nat_digits: "list_all is_digit (string_of_nat n)"
proof (induction n rule: string_of_nat.induct)
  case (1 n)
  show ?case
  proof (cases "n < 10")
    case True
    then show ?thesis
      by (subst string_of_nat.simps) (simp add: is_digit_digit_char)
  next
    case False
    have "n mod 10 < 10" by simp
    with False 1 show ?thesis
      by (subst string_of_nat.simps) (simp add: is_digit_digit_char)
  qed
qed

lemma pad_digits: "list_all is_digit (pad w n)"
proof -
  have "is_digit CHR ''0''" by (simp add: is_digit_def)
  then have "list_all is_digit (replicate (w - length (string_of_nat n)) CHR ''0'')"
    by (simp add: list_all_iff)
  then show ?thesis
    by (simp add: pad_def Let_def string_of_nat_digits)
qed

lemma digit_not_special:
  "is_digit c \<Longrightarrow> c \<noteq> CHR '':'' \<and> c \<noteq> CHR ''.'' \<and> c \<noteq> CHR ''T''"
  by (auto simp: is_digit_def)

lemma replace_colon_period_digits:
  "list_all is_digit s \<Longrightarrow> replace_colon_period (s @ r) = s @ replace_colon_period r"
  by (induction s) (auto simp: replace_colon_period_def dest: digit_not_special)

lemma replace_colon_period_Cons:
  "replace_colon_period (c # r) =
     (if c = CHR '':'' \<or> c = CHR ''.'' then CHR ''-'' else c) # replace_colon_period r"
  and replace_colon_period_Nil: "replace_colon_period [] = []"
  by (simp_all add: replace_colon_period_def)

lemma split_head_Cons:
  "split_head sep (c # r) = (if c \<noteq> sep then c # split_head sep r else [])"
  and split_head_Nil: "split_head sep [] = []"
  by (simp_all add: split_head_def)

lemma replace_first_digits:
  "list_all is_digit s \<Longrightarrow> replace_first CHR ''T'' b (s @ r) = s @ replace_first CHR ''T'' b r"
  by (induction s) (auto dest: digit_not_special)

lemma split_head_digits:
  "list_all is_digit s \<Longrightarrow> split_head CHR ''.'' (s @ r) = s @ split_head CHR ''.'' r"
  by (induction s) (auto simp: split_head_def dest: digit_not_special)

text \<open>
  The timestamp in the name of a backup: \<^verbatim>\<open>split('.')\<close> finds no period, they have
  all become hyphens, so the milliseconds and the \<^verbatim>\<open>Z\<close> stay.
\<close>

lemma backup_timestamp_eq:
  "backup_timestamp now =
     pad 4 (year now) @ ''-'' @ pad 2 (month now) @ ''-'' @ pad 2 (day now) @ ''_''
     @ pad 2 (hours now) @ ''-'' @ pad 2 (minutes now) @ ''-'' @ pad 2 (seconds now)
     @ ''-'' @ pad 3 (milliseconds now) @ ''Z''"
proof -
  have 1: "replace_colon_period (toISOString now) =
     pad 4 (year now) @ ''-'' @ pad 2 (month now) @ ''-'' @ pad 2 (day now) @ ''T''
     @ pad 2 (hours now) @ ''-'' @ pad 2 (minutes now) @ ''-'' @ pad 2 (seconds now)
     @ ''-'' @ pad 3 (milliseconds now) @ ''Z''"
    unfolding toISOString_def
    by (simp add: replace_colon_period_digits pad_digits
        replace_colon_period_Cons replace_colon_period_Nil)
  have 2: "replace_first CHR ''T'' CHR ''_'' (replace_colon_period (toISOString now)) =
     pad 4 (year now) @ ''-'' @ pad 2 (month now) @ ''-'' @ pad 2 (day now) @ ''_''
     @ pad 2 (hours now) @ ''-'' @ pad 2 (minutes now) @ ''-'' @ pad 2 (seconds now)
     @ ''-'' @ pad 3 (milliseconds now) @ ''Z''"
    unfolding 1 by (simp add: replace_first_digits pad_digits)
  show ?thesis
    unfolding backup_timestamp_def 2
    by (simp add: split_head_digits pad_digits split_head_Cons split_head_Nil)
qed

text \<open>
  C6. The name of a backup is unique at one-second granularity only, so two captures
  within one second have the same name and the later write replaces the earlier: the
  code does not do that. The milliseconds stay in the name, so two captures within one
  second at different milliseconds have different names, and the earlier file is still
  there after the later write.
\<close>

theorem backup_filename_same_second:
  assumes "m \<noteq> milliseconds now"
  shows "backup_filename (now\<lparr>milliseconds := m\<rparr>) \<noteq> backup_filename now
     \<and> snd (createBackup dir s2 (now\<lparr>milliseconds := m\<rparr>) t2
              (snd (createBackup dir s1 now t1 files)))
          (fst (createBackup dir s1 now t1 files))
         = Some \<lparr>timestamp = toISOString t1, settings = s1\<rparr>"
proof -
  have ne: "backup_filename (now\<lparr>milliseconds := m\<rparr>) \<noteq> backup_filename now"
  proof
    assume "backup_filename (now\<lparr>milliseconds := m\<rparr>) = backup_filename now"
    then have "pad 3 m = pad 3 (milliseconds now)"
      by (simp add: backup_filename_def backup_timestamp_eq)
    then have "nat_of_string (pad 3 m) = nat_of_string (pad 3 (milliseconds now))"
      by simp
    with assms show False by (simp add: nat_of_string_pad)
  qed
  then show ?thesis
    by (simp add: createBackup_def Let_def)
qed

theorem backup_filename_same_second_witness:
  "456 \<noteq> milliseconds capture_0
   \<and> backup_filename capture_0 = ''backup-2024-01-15_10-30-45-123Z.json''
   \<and> backup_filename (capture_0\<lparr>milliseconds := 456\<rparr>) = ''backup-2024-01-15_10-30-45-456Z.json''
   \<and> backup_filename (capture_0\<lparr>milliseconds := 456\<rparr>) \<noteq> backup_filename capture_0"
proof -
  have h: "456 \<noteq> milliseconds capture_0" by (simp add: capture_0_def)
  have "backup_filename capture_0 = ''backup-2024-01-15_10-30-45-123Z.json''"
    and "backup_filename (capture_0\<lparr>milliseconds := 456\<rparr>) = ''backup-2024-01-15_10-30-45-456Z.json''"
    by code_simp+
  with h backup_filename_same_second [OF h] show ?thesis by blast
qed

section \<open>Properties of the secrets loop\<close>

lemma confirm_answer_y: "confirm_answer ''y''"
  by code_simp

lemma confirm_answer_n: "\<not> confirm_answer ''n''"
  by code_simp

lemma configure_secret_Remove:
  "type c = Remove \<Longrightarrow>
     configure_secret env c st =
       st\<lparr>skipped := skipped st
             @ [if confirm_answer (answers env (length (prompts st)))
                then ''Secret: '' @ key c @ '' (removal not automated)''
                else ''Secret: '' @ key c],
          prompts := prompts st
             @ [ChangeQuestion (''Secret: '' @ key c) (JStr ''***'') (JStr ''***'')]\<rparr>"
  by (simp add: configure_secret_def confirmChange_def Let_def)

lemma configure_secret_removes:
  "list_all (\<lambda>c. type c = Remove) cs \<Longrightarrow>
     calls (fold (configure_secret env) cs st) = calls st
     \<and> successful (fold (configure_secret env) cs st) = successful st
     \<and> failed (fold (configure_secret env) cs st) = failed st
     \<and> length (skipped (fold (configure_secret env) cs st)) = length (skipped st) + length cs"
  by (induction cs arbitrary: st) (simp_all add: configure_secret_Remove)

text \<open>
  C4, as the code has it. A remove change of a secret is put to the user and then
  recorded in the skipped list, whatever the answer; nothing is added to the successful
  or the failed list and no call is issued. The entry carries the note
  \<^verbatim>\<open>(removal not automated)\<close> when the user confirms, and is the plain
  \<^verbatim>\<open>Secret: <key>\<close> when the user declines. So a run of the loop over remove
  changes only issues no call and adds to the skipped list only, one entry per change.
\<close>

theorem configure_secret_remove:
  "(type c = Remove \<longrightarrow>
     configure_secret env c st =
       st\<lparr>skipped := skipped st
             @ [if confirm_answer (answers env (length (prompts st)))
                then ''Secret: '' @ key c @ '' (removal not automated)''
                else ''Secret: '' @ key c],
          prompts := prompts st
             @ [ChangeQuestion (''Secret: '' @ key c) (JStr ''***'') (JStr ''***'')]\<rparr>)
   \<and> (list_all (\<lambda>c. type c = Remove) cs \<longrightarrow>
     calls (fold (configure_secret env) cs st) = calls st
     \<and> successful (fold (configure_secret env) cs st) = successful st
     \<and> failed (fold (configure_secret env) cs st) = failed st
     \<and> length (skipped (fold (configure_secret env) cs st)) = length (skipped st) + length cs)"
  using configure_secret_Remove [of c env st] configure_secret_removes [of cs env st]
  by blast

theorem configure_secret_remove_witness:
  "type old_secret_removal = Remove
   \<and> configure_secret yes_env old_secret_removal initial_state =
       \<lparr>successful = [], failed = [],
        skipped = [''Secret: OLD_TOKEN (removal not automated)''],
        calls = [],
        prompts = [ChangeQuestion ''Secret: OLD_TOKEN'' (JStr ''***'') (JStr ''***'')]\<rparr>"
proof -
  have h: "type old_secret_removal = Remove" by (simp add: old_secret_removal_def)
  from configure_secret_remove [of old_secret_removal yes_env initial_state "[]"] h
  show ?thesis
    by (simp add: old_secret_removal_def initial_state_def yes_env_def confirm_answer_y)
qed

text \<open>
  C4 as stated has the entry annotated whether the user confirms or declines. When the
  user declines the removal of the one secret the platform has and the file lacks, the
  entry is the plain one.
\<close>

theorem configure_secret_remove_counterexample:
  "compare (current_secrets [''OLD_TOKEN'']) [] = [old_secret_removal]
   \<and> skipped (configure_secrets declining_env [''OLD_TOKEN''] [] initial_state)
       = [''Secret: OLD_TOKEN'']"
  by code_simp

section \<open>Properties of the team loop\<close>

lemma addTeamMember_eq:
  "addTeamMember env teamSlug (username m) (role m) st =
     (case fails env (length (calls st)) (member_call teamSlug m) of
        None \<Rightarrow> Inr ()
      | Some e \<Rightarrow> Inl (''Failed to add member '' @ dq @ username m @ dq @ '' to team '' @ dq
                        @ teamSlug @ dq @ '': '' @ message e),
      st\<lparr>calls := calls st @ [member_call teamSlug m]\<rparr>)"
  by (simp add: addTeamMember_def api_def member_call_def Let_def split: option.splits)

lemma add_members_eq:
  "add_members env teamSlug teamName ms st =
     st\<lparr>calls := calls st @ map (member_call teamSlug) ms,
        failed := failed st @ member_failures env teamSlug teamName ms (length (calls st))\<rparr>"
proof (induction ms arbitrary: st)
  case Nil
  then show ?case by (simp add: member_failures_def)
next
  case (Cons m ms)
  have "[length (calls st)..<length (calls st) + length (m # ms)] =
      length (calls st) # [Suc (length (calls st))..<length (calls st) + length (m # ms)]"
    by (rule upt_conv_Cons) simp
  then have upt: "[length (calls st)..<length (calls st) + length (m # ms)] =
      length (calls st) # [Suc (length (calls st))..<Suc (length (calls st)) + length ms]"
    by simp
  show ?case
  proof (cases "fails env (length (calls st)) (member_call teamSlug m)")
    case None
    then show ?thesis
      unfolding member_failures_def upt
      by (simp add: addTeamMember_eq Cons.IH member_failures_def)
  next
    case (Some e)
    then show ?thesis
      unfolding member_failures_def upt
      by (simp add: addTeamMember_eq Cons.IH member_failures_def)
  qed
qed

lemma process_members_eq:
  "process_members env teamSlug desiredTeam st =
     st\<lparr>calls := calls st @ map (member_call teamSlug) (declared_members desiredTeam),
        failed := failed st @ member_failures env teamSlug (name desiredTeam)
                    (declared_members desiredTeam) (length (calls st))\<rparr>"
  by (cases "members desiredTeam")
     (simp_all add: process_members_def declared_members_def add_members_eq member_failures_def)

lemma updateTeam_eq:
  "updateTeam env teamSlug t st =
     (case fails env (length (calls st))
             (TeamsUpdateInOrg teamSlug (name t) (or_default (description t) '''')
                (or_default (privacy t) ''closed'')
                (or_default (notification_setting t) ''notifications_enabled'')) of
        None \<Rightarrow> Inr ()
      | Some e \<Rightarrow> Inl (''Failed to update team '' @ dq @ teamSlug @ dq @ '': '' @ message e),
      st\<lparr>calls := calls st
            @ [TeamsUpdateInOrg teamSlug (name t) (or_default (description t) '''')
                 (or_default (privacy t) ''closed'')
                 (or_default (notification_setting t) ''notifications_enabled'')]\<rparr>)"
  by (simp add: updateTeam_def api_def split: option.splits)

lemma createTeam_eq:
  "createTeam env t st =
     (case fails env (length (calls st))
             (TeamsCreate (name t) (or_default (description t) '''')
                (or_default (privacy t) ''closed'')
                (or_default (notification_setting t) ''notifications_enabled'')) of
        None \<Rightarrow> Inr (created_slug env (length (calls st)) (name t))
      | Some e \<Rightarrow> Inl (''Failed to create team '' @ dq @ name t @ dq @ '': '' @ message e),
      st\<lparr>calls := calls st
            @ [TeamsCreate (name t) (or_default (description t) '''')
                 (or_default (privacy t) ''closed'')
                 (or_default (notification_setting t) ''notifications_enabled'')]\<rparr>)"
  by (simp add: createTeam_def api_def Let_def split: option.splits)

text \<open>What the body of the loop over the declared teams does, case by case.\<close>

lemma configure_team_eq:
  "configure_team env currentTeams t st =
     (let st1 = st\<lparr>prompts := prompts st @ [Question (team_question currentTeams t)]\<rparr> in
      if confirm_answer (answers env (length (prompts st))) then
        (case fails env (length (calls st)) (team_call currentTeams t) of
           None \<Rightarrow>
             st1\<lparr>calls := calls st @ [team_call currentTeams t]
                    @ map (member_call (members_slug env currentTeams t (length (calls st))))
                        (declared_members t),
                 failed := failed st
                    @ member_failures env (members_slug env currentTeams t (length (calls st)))
                        (name t) (declared_members t) (Suc (length (calls st))),
                 successful := successful st @ [''Team: '' @ name t]\<rparr>
         | Some e \<Rightarrow>
             st1\<lparr>calls := calls st @ [team_call currentTeams t],
                 failed := failed st
                    @ [''Team: '' @ name t @ '' - ''
                       @ (case find (\<lambda>r. slug r = expected_slug t) currentTeams of
                            Some existing \<Rightarrow>
                              ''Failed to update team '' @ dq @ slug existing @ dq
                          | None \<Rightarrow> ''Failed to create team '' @ dq @ name t @ dq)
                       @ '': '' @ message e]\<rparr>)
      else st1\<lparr>skipped := skipped st @ [''Team: '' @ name t]\<rparr>)"
proof (cases "find (\<lambda>r. slug r = expected_slug t) currentTeams")
  case None
  then show ?thesis
    by (simp add: configure_team_def confirm_def team_question_def team_call_def
        members_slug_def createTeam_eq process_members_eq Let_def split: option.splits)
next
  case (Some existing)
  then show ?thesis
    by (simp add: configure_team_def confirm_def team_question_def team_call_def
        members_slug_def updateTeam_eq process_members_eq Let_def split: option.splits)
qed

lemma configure_team_prompts:
  "prompts (configure_team env currentTeams t st) =
     prompts st @ [Question (team_question currentTeams t)]"
  by (simp add: configure_team_eq Let_def split: option.splits)

lemma configure_teams_prompts:
  "prompts (configure_teams env currentTeams ts st) =
     prompts st @ map (\<lambda>t. Question (team_question currentTeams t)) ts"
  unfolding configure_teams_def
  by (induction ts arbitrary: st) (simp_all add: configure_team_prompts)

lemma expected_slug_team_a: "expected_slug team_a = ''team-a''"
  by code_simp

lemma expected_slug_team_b: "expected_slug team_b = ''team-b''"
  by code_simp

text \<open>
  A run over two declared teams, the first on the platform already, in which the upsert
  of the member \<^verbatim>\<open>bob\<close> fails.
\<close>

lemma configure_teams_example:
  "configure_teams bob_fails_env [remote_team_a] [team_a, team_b] initial_state =
     \<lparr>successful = [''Team: Team A'', ''Team: Team B''],
      failed = [''Team Team A - Member bob''],
      skipped = [],
      calls = [TeamsUpdateInOrg ''team-a'' ''Team A'' [] ''closed'' ''notifications_enabled'',
               AddOrUpdateMembership ''team-a'' ''al'' ''member'',
               AddOrUpdateMembership ''team-a'' ''bob'' ''member'',
               AddOrUpdateMembership ''team-a'' ''cy'' ''maintainer'',
               TeamsCreate ''Team B'' [] ''closed'' ''notifications_enabled'',
               AddOrUpdateMembership ''Team B'' ''dee'' ''member''],
      prompts = [Question (team_question [remote_team_a] team_a),
                 Question (team_question [remote_team_a] team_b)]\<rparr>"
  by code_simp

text \<open>
  The loop over the declared teams takes the teams one after the other, each from the
  state the teams before it have left, and only adds to the lists of that state.
\<close>

lemma configure_teams_append:
  "configure_teams env currentTeams (pre @ ts) st =
     configure_teams env currentTeams ts (configure_teams env currentTeams pre st)"
  by (simp add: configure_teams_def)

lemma configure_team_extends:
  "(\<exists>a. calls (configure_team env currentTeams t st) = calls st @ a)
   \<and> (\<exists>b. successful (configure_team env currentTeams t st) = successful st @ b)
   \<and> (\<exists>c. failed (configure_team env currentTeams t st) = failed st @ c)"
  by (simp add: configure_team_eq Let_def split: option.splits)

lemma configure_teams_extends:
  "(\<exists>a. calls (configure_teams env currentTeams ts st) = calls st @ a)
   \<and> (\<exists>b. successful (configure_teams env currentTeams ts st) = successful st @ b)
   \<and> (\<exists>c. failed (configure_teams env currentTeams ts st) = failed st @ c)"
proof (induction ts arbitrary: st)
  case Nil
  then show ?case by (simp add: configure_teams_def)
next
  case (Cons t ts)
  let ?st1 = "configure_team env currentTeams t st"
  have step: "configure_teams env currentTeams (t # ts) st =
      configure_teams env currentTeams ts ?st1"
    by (simp add: configure_teams_def)
  from Cons.IH [of ?st1] obtain a b c where
    "calls (configure_teams env currentTeams ts ?st1) = calls ?st1 @ a"
    "successful (configure_teams env currentTeams ts ?st1) = successful ?st1 @ b"
    "failed (configure_teams env currentTeams ts ?st1) = failed ?st1 @ c"
    by blast
  moreover from configure_team_extends [of env currentTeams t st] obtain a' b' c' where
    "calls ?st1 = calls st @ a'" "successful ?st1 = successful st @ b'"
    "failed ?st1 = failed st @ c'"
    by blast
  ultimately show ?case unfolding step by simp
qed

text \<open>
  Whatever the teams before it have left on record, a team of the list is asked about;
  and when the user confirms and its team-level call succeeds, that call and the upsert
  of every one of its members are issued and the team is recorded.
\<close>

lemma configure_teams_each_team:
  assumes "confirm_answer (answers env (length (prompts st) + length pre))"
    and "fails env (length (calls (configure_teams env currentTeams pre st)))
           (team_call currentTeams t) = None"
  shows "(\<exists>after. calls (configure_teams env currentTeams (pre @ t # post) st) =
            calls (configure_teams env currentTeams pre st) @ [team_call currentTeams t]
            @ map (member_call (members_slug env currentTeams t
                     (length (calls (configure_teams env currentTeams pre st)))))
                (declared_members t)
            @ after)
       \<and> (\<exists>after. successful (configure_teams env currentTeams (pre @ t # post) st) =
            successful (configure_teams env currentTeams pre st) @ [''Team: '' @ name t]
            @ after)
       \<and> (\<exists>after. failed (configure_teams env currentTeams (pre @ t # post) st) =
            failed (configure_teams env currentTeams pre st)
            @ member_failures env
                (members_slug env currentTeams t
                   (length (calls (configure_teams env currentTeams pre st))))
                (name t) (declared_members t)
                (Suc (length (calls (configure_teams env currentTeams pre st))))
            @ after)"
proof -
  let ?st1 = "configure_teams env currentTeams pre st"
  let ?st2 = "configure_team env currentTeams t ?st1"
  have final: "configure_teams env currentTeams (pre @ t # post) st =
      configure_teams env currentTeams post ?st2"
    by (simp add: configure_teams_def)
  have "length (prompts ?st1) = length (prompts st) + length pre"
    by (simp add: configure_teams_prompts)
  with assms have c: "confirm_answer (answers env (length (prompts ?st1)))" by simp
  from c assms(2) have
    "calls ?st2 = calls ?st1 @ [team_call currentTeams t]
        @ map (member_call (members_slug env currentTeams t (length (calls ?st1))))
            (declared_members t)"
    "successful ?st2 = successful ?st1 @ [''Team: '' @ name t]"
    "failed ?st2 = failed ?st1
        @ member_failures env (members_slug env currentTeams t (length (calls ?st1)))
            (name t) (declared_members t) (Suc (length (calls ?st1)))"
    by (simp_all add: configure_team_eq Let_def)
  moreover from configure_teams_extends [of env currentTeams post ?st2] obtain a b c where
    "calls (configure_teams env currentTeams post ?st2) = calls ?st2 @ a"
    "successful (configure_teams env currentTeams post ?st2) = successful ?st2 @ b"
    "failed (configure_teams env currentTeams post ?st2) = failed ?st2 @ c"
    by blast
  ultimately show ?thesis unfolding final by simp
qed

text \<open>
  C5. The loop over the declared members of a team issues the upsert of every member,
  in order, whatever fails; each failing upsert leaves one entry in the failed list and
  nothing else. The loop over the declared teams goes on after it: it puts its question
  for every team, and every team of the list whose question the user confirms and whose
  team-level call succeeds has that call and the upserts of all its members issued and
  is recorded as successful, whatever failed before it.
\<close>

theorem add_members_isolates_failures:
  "calls (add_members env teamSlug teamName ms st) =
       calls st @ map (member_call teamSlug) ms
   \<and> failed (add_members env teamSlug teamName ms st) =
       failed st @ member_failures env teamSlug teamName ms (length (calls st))
   \<and> length (member_failures env teamSlug teamName ms (length (calls st))) =
       length (filter (\<lambda>(m, i). fails env i (member_call teamSlug m) \<noteq> None)
                 (zip ms [length (calls st)..<length (calls st) + length ms]))
   \<and> successful (add_members env teamSlug teamName ms st) = successful st
   \<and> skipped (add_members env teamSlug teamName ms st) = skipped st
   \<and> prompts (configure_teams env currentTeams desiredTeams st) =
       prompts st @ map (\<lambda>t. Question (team_question currentTeams t)) desiredTeams
   \<and> (confirm_answer (answers env (length (prompts st) + length pre))
      \<and> fails env (length (calls (configure_teams env currentTeams pre st)))
           (team_call currentTeams t) = None \<longrightarrow>
        (\<exists>after. calls (configure_teams env currentTeams (pre @ t # post) st) =
            calls (configure_teams env currentTeams pre st) @ [team_call currentTeams t]
            @ map (member_call (members_slug env currentTeams t
                     (length (calls (configure_teams env currentTeams pre st)))))
                (declared_members t)
            @ after)
       \<and> (\<exists>after. successful (configure_teams env currentTeams (pre @ t # post) st) =
            successful (configure_teams env currentTeams pre st) @ [''Team: '' @ name t]
            @ after)
       \<and> (\<exists>after. failed (configure_teams env currentTeams (pre @ t # post) st) =
            failed (configure_teams env currentTeams pre st)
            @ member_failures env
                (members_slug env currentTeams t
                   (length (calls (configure_teams env currentTeams pre st))))
                (name t) (declared_members t)
                (Suc (length (calls (configure_teams env currentTeams pre st))))
            @ after))"
proof -
  have "calls (add_members env teamSlug teamName ms st) =
       calls st @ map (member_call teamSlug) ms
   \<and> failed (add_members env teamSlug teamName ms st) =
       failed st @ member_failures env teamSlug teamName ms (length (calls st))
   \<and> length (member_failures env teamSlug teamName ms (length (calls st))) =
       length (filter (\<lambda>(m, i). fails env i (member_call teamSlug m) \<noteq> None)
                 (zip ms [length (calls st)..<length (calls st) + length ms]))
   \<and> successful (add_members env teamSlug teamName ms st) = successful st
   \<and> skipped (add_members env teamSlug teamName ms st) = skipped st
   \<and> prompts (configure_teams env currentTeams desiredTeams st) =
       prompts st @ map (\<lambda>t. Question (team_question currentTeams t)) desiredTeams"
    by (simp add: add_members_eq configure_teams_prompts member_failures_def)
  then show ?thesis
    using configure_teams_each_team [of env st pre currentTeams t post] by blast
qed

theorem add_members_isolates_failures_witness:
  "confirm_answer (answers bob_fails_env (length (prompts initial_state) + length [team_a]))
   \<and> fails bob_fails_env
        (length (calls (configure_teams bob_fails_env [remote_team_a] [team_a] initial_state)))
        (team_call [remote_team_a] team_b) = None
   \<and> failed (configure_teams bob_fails_env [remote_team_a] [team_a] initial_state)
       = [''Team Team A - Member bob'']
   \<and> TeamsCreate ''Team B'' [] ''closed'' ''notifications_enabled''
       \<in> set (calls (configure_teams bob_fails_env [remote_team_a] [team_a, team_b]
                       initial_state))
   \<and> AddOrUpdateMembership ''Team B'' ''dee'' ''member''
       \<in> set (calls (configure_teams bob_fails_env [remote_team_a] [team_a, team_b]
                       initial_state))
   \<and> ''Team: Team B''
       \<in> set (successful (configure_teams bob_fails_env [remote_team_a] [team_a, team_b]
                            initial_state))
   \<and> calls (add_members bob_fails_env ''team-a'' ''Team A'' (declared_members team_a)
        initial_state)
     = [AddOrUpdateMembership ''team-a'' ''al'' ''member'',
        AddOrUpdateMembership ''team-a'' ''bob'' ''member'',
        AddOrUpdateMembership ''team-a'' ''cy'' ''maintainer'']
   \<and> failed (add_members bob_fails_env ''team-a'' ''Team A'' (declared_members team_a)
        initial_state) = [''Team Team A - Member bob'']
   \<and> configure_teams bob_fails_env [remote_team_a] [team_a, team_b] initial_state =
     \<lparr>successful = [''Team: Team A'', ''Team: Team B''],
      failed = [''Team Team A - Member bob''],
      skipped = [],
      calls = [TeamsUpdateInOrg ''team-a'' ''Team A'' [] ''closed'' ''notifications_enabled'',
               AddOrUpdateMembership ''team-a'' ''al'' ''member'',
               AddOrUpdateMembership ''team-a'' ''bob'' ''member'',
               AddOrUpdateMembership ''team-a'' ''cy'' ''maintainer'',
               TeamsCreate ''Team B'' [] ''closed'' ''notifications_enabled'',
               AddOrUpdateMembership ''Team B'' ''dee'' ''member''],
      prompts = [Question (team_question [remote_team_a] team_a),
                 Question (team_question [remote_team_a] team_b)]\<rparr>"
proof -
  let ?pre = "configure_teams bob_fails_env [remote_team_a] [team_a] initial_state"
  let ?final = "configure_teams bob_fails_env [remote_team_a] [team_a, team_b] initial_state"
  have h1: "confirm_answer
      (answers bob_fails_env (length (prompts initial_state) + length [team_a]))"
    by code_simp
  have h2: "fails bob_fails_env (length (calls ?pre)) (team_call [remote_team_a] team_b) = None"
    by code_simp
  have pre_failed: "failed ?pre = [''Team Team A - Member bob'']"
    by code_simp
  have tc: "team_call [remote_team_a] team_b =
      TeamsCreate ''Team B'' [] ''closed'' ''notifications_enabled''"
    by code_simp
  have mc: "map (member_call (members_slug bob_fails_env [remote_team_a] team_b
                   (length (calls ?pre)))) (declared_members team_b)
      = [AddOrUpdateMembership ''Team B'' ''dee'' ''member'']"
    by code_simp
  have nm: "''Team: '' @ name team_b = ''Team: Team B''"
    by code_simp
  have c: "calls initial_state @ map (member_call ''team-a'') (declared_members team_a)
     = [AddOrUpdateMembership ''team-a'' ''al'' ''member'',
        AddOrUpdateMembership ''team-a'' ''bob'' ''member'',
        AddOrUpdateMembership ''team-a'' ''cy'' ''maintainer'']"
    by code_simp
  have f: "failed initial_state @ member_failures bob_fails_env ''team-a'' ''Team A''
       (declared_members team_a) (length (calls initial_state))
     = [''Team Team A - Member bob'']"
    by code_simp
  note inst = add_members_isolates_failures [where env = bob_fails_env
      and teamSlug = "''team-a''" and teamName = "''Team A''"
      and ms = "declared_members team_a" and st = initial_state
      and currentTeams = "[remote_team_a]" and desiredTeams = "[team_a, team_b]"
      and pre = "[team_a]" and t = team_b and post = "[]"]
  from inst h1 h2 obtain a1 a2 where
    fc: "calls (configure_teams bob_fails_env [remote_team_a] ([team_a] @ team_b # [])
           initial_state) =
        calls ?pre @ [team_call [remote_team_a] team_b]
        @ map (member_call (members_slug bob_fails_env [remote_team_a] team_b
                 (length (calls ?pre)))) (declared_members team_b) @ a1"
    and fs: "successful (configure_teams bob_fails_env [remote_team_a]
           ([team_a] @ team_b # []) initial_state) =
        successful ?pre @ [''Team: '' @ name team_b] @ a2"
    by blast
  from fc have m1: "TeamsCreate ''Team B'' [] ''closed'' ''notifications_enabled''
       \<in> set (calls ?final)"
    and m2: "AddOrUpdateMembership ''Team B'' ''dee'' ''member'' \<in> set (calls ?final)"
    unfolding tc mc by simp_all
  from fs have m3: "''Team: Team B'' \<in> set (successful ?final)"
    unfolding nm by simp
  from inst have "calls (add_members bob_fails_env ''team-a'' ''Team A''
        (declared_members team_a) initial_state)
       = calls initial_state @ map (member_call ''team-a'') (declared_members team_a)"
    and "failed (add_members bob_fails_env ''team-a'' ''Team A''
        (declared_members team_a) initial_state)
       = failed initial_state @ member_failures bob_fails_env ''team-a'' ''Team A''
           (declared_members team_a) (length (calls initial_state))"
    by blast+
  with c f h1 h2 pre_failed m1 m2 m3 configure_teams_example show ?thesis
    by simp
qed

text \<open>
  C9. When the user confirms and the team-level call succeeds, the team is recorded in
  the successful list as \<^verbatim>\<open>Team: <name>\<close>, and every member upsert that failed has
  its entry in the failed list: one team can add to both lists.
\<close>

theorem team_success_with_member_failures:
  "confirm_answer (answers env (length (prompts st)))
   \<and> fails env (length (calls st)) (team_call currentTeams t) = None \<longrightarrow>
     successful (configure_team env currentTeams t st) = successful st @ [''Team: '' @ name t]
   \<and> failed (configure_team env currentTeams t st) =
       failed st @ member_failures env (members_slug env currentTeams t (length (calls st)))
                     (name t) (declared_members t) (Suc (length (calls st)))
   \<and> calls (configure_team env currentTeams t st) =
       calls st @ [team_call currentTeams t]
         @ map (member_call (members_slug env currentTeams t (length (calls st))))
             (declared_members t)
   \<and> skipped (configure_team env currentTeams t st) = skipped st"
  by (simp add: configure_team_eq Let_def)

theorem team_success_with_member_failures_witness:
  "confirm_answer (answers bob_fails_env (length (prompts initial_state)))
   \<and> fails bob_fails_env (length (calls initial_state)) (team_call [remote_team_a] team_a) = None
   \<and> successful (configure_team bob_fails_env [remote_team_a] team_a initial_state)
       = [''Team: Team A'']
   \<and> failed (configure_team bob_fails_env [remote_team_a] team_a initial_state)
       = [''Team Team A - Member bob'']"
proof -
  have h: "confirm_answer (answers bob_fails_env (length (prompts initial_state)))
     \<and> fails bob_fails_env (length (calls initial_state)) (team_call [remote_team_a] team_a) = None"
    by code_simp
  have s: "successful initial_state @ [''Team: '' @ name team_a] = [''Team: Team A'']"
    by code_simp
  have f: "failed initial_state @ member_failures bob_fails_env
       (members_slug bob_fails_env [remote_team_a] team_a (length (calls initial_state)))
       (name team_a) (declared_members team_a) (Suc (length (calls initial_state)))
     = [''Team Team A - Member bob'']"
    by code_simp
  from team_success_with_member_failures [where env = bob_fails_env and st = initial_state
      and currentTeams = "[remote_team_a]" and t = team_a]
    h s f
  show ?thesis by simp
qed

section \<open>Properties of the resolution of bypass actors\<close>














section \<open>Properties of the restore command\<close>










end
